theory Spec2Isabelle
  imports
    Main
    "HOL-Library.Sublist"
    "HOL-Library.Char_ord"
    "HOL-Library.List_Lexorder"
    "HOL-Library.Product_Lexorder"
begin

section \<open>Python strings\<close>

text \<open>
  Strings are lists of characters, and a character is a code point from 0 to 255. The
  order on strings is the lexicographic one over the character codes, the order Python's
  \<open><\<close> uses on \<open>str\<close>; pairs are ordered lexicographically, as Python orders tuples.
\<close>

text \<open>\<open>s.endswith(suf)\<close>\<close>

definition endswith :: "string \<Rightarrow> string \<Rightarrow> bool" where
  "endswith s suf = (length suf \<le> length s \<and> drop (length s - length suf) s = suf)"

text \<open>\<open>q in s\<close> for two strings: \<open>q\<close> occurs in \<open>s\<close> at some position.\<close>

fun str_in :: "string \<Rightarrow> string \<Rightarrow> bool" where
  "str_in q [] = (q = [])"
| "str_in q (c # cs) = (prefix q (c # cs) \<or> str_in q cs)"

text \<open>\<open>s.split(sep)\<close> for a separator of one character: the result is never empty.\<close>

fun split_on :: "char \<Rightarrow> string \<Rightarrow> string list" where
  "split_on sep [] = [[]]"
| "split_on sep (c # cs) =
     (if c = sep then [] # split_on sep cs
      else (case split_on sep cs of
              [] \<Rightarrow> [[c]]
            | w # ws \<Rightarrow> (c # w) # ws))"

text \<open>\<open>s.split(sep)[0]\<close>\<close>

definition first_segment :: "char \<Rightarrow> string \<Rightarrow> string" where
  "first_segment sep s = (case split_on sep s of [] \<Rightarrow> [] | w # ws \<Rightarrow> w)"

text \<open>
  \<open>s.strip()\<close> removes the leading and trailing characters that \<open>str.isspace\<close>
  accepts. Among the code points 0 to 255 these are 9 to 13, 28 to 31, 32, 133 (U+0085)
  and 160 (U+00A0).
\<close>

definition isspace :: "char \<Rightarrow> bool" where
  "isspace c =
     (let n = (of_char c :: nat)
      in (9 \<le> n \<and> n \<le> 13) \<or> (28 \<le> n \<and> n \<le> 32) \<or> n = 133 \<or> n = 160)"

definition strip :: "string \<Rightarrow> string" where
  "strip s = rev (dropWhile isspace (rev (dropWhile isspace s)))"

section \<open>Model records\<close>

text \<open>
  A model record is a dictionary of the API response. The program reads two of its keys,
  always with \<open>dict.get\<close>, so either may be missing: \<open>None\<close> is a missing key. The
  values have the types the data model gives them (a string, an integer).
\<close>

record model =
  id_field :: "string option"
  context_length :: "int option"

text \<open>\<open>model.get('id', default)\<close>\<close>

definition get_id :: "model \<Rightarrow> string \<Rightarrow> string" where
  "get_id m dflt = (case id_field m of None \<Rightarrow> dflt | Some s \<Rightarrow> s)"

text \<open>\<open>model.get('context_length', 0)\<close>\<close>

definition get_context_length :: "model \<Rightarrow> int" where
  "get_context_length m = (case context_length m of None \<Rightarrow> 0 | Some n \<Rightarrow> n)"

section \<open>filter\_free\_models\<close>

text \<open>
  The loop of \<open>filter_free_models\<close>: \<open>free_models\<close> is the accumulator, and each
  record whose id (the empty string when missing) ends with \<open>:free\<close> is appended.
\<close>

fun filter_free_loop :: "model list \<Rightarrow> model list \<Rightarrow> model list" where
  "filter_free_loop free_models [] = free_models"
| "filter_free_loop free_models (m # ms) =
     (if endswith (get_id m []) '':free''
      then filter_free_loop (free_models @ [m]) ms
      else filter_free_loop free_models ms)"

text \<open>
  The argument is \<open>None\<close> for Python's \<open>None\<close>; \<open>not models\<close> holds for \<open>None\<close> and
  for the empty list.
\<close>

definition filter_free_models :: "model list option \<Rightarrow> model list" where
  "filter_free_models models =
     (case models of
        None \<Rightarrow> []
      | Some ms \<Rightarrow> if ms = [] then [] else filter_free_loop [] ms)"

section \<open>Printed output and exceptions\<close>

text \<open>
  Each function that prints returns the lines it printed, in order. A line of fixed text
  is a constructor named after the text; a table row carries the values of its columns,
  as the f-string receives them. The widths of the columns (padding with spaces) are not
  part of the model.
\<close>

datatype out_line =
    Fetching_banner
  | Fetch_ok_banner
  | Err_no_data_field
  | Err_unable_to_connect
  | Err_details
  | Check_banner
  | Cannot_perform_check
  | Query_line string
  | Status_free
  | Status_not_free
  | Status_not_found
  | Match_header
  | Match_rule
  | Match_row string string
  | Table_banner
  | No_free_models
  | Table_header
  | Table_rule
  | Table_row string string string

text \<open>The one exception that escapes a function of the program.\<close>

datatype py_error = TypeError

section \<open>Formatting\<close>

text \<open>\<open>f"{n:,}"\<close> for an integer: the decimal digits in groups of three.\<close>

fun digits :: "nat \<Rightarrow> string" where
  "digits n =
     (if n < 10 then [''0123456789'' ! n]
      else digits (n div 10) @ [''0123456789'' ! (n mod 10)])"

declare digits.simps [simp del]

fun group3 :: "string \<Rightarrow> string" where
  "group3 (a # b # c # d # ds) = a # b # c # CHR '','' # group3 (d # ds)"
| "group3 ds = ds"

definition format_thousands :: "int \<Rightarrow> string" where
  "format_thousands n =
     (if n < 0 then ''-'' else []) @ rev (group3 (rev (digits (nat \<bar>n\<bar>))))"

text \<open>
  \<open>f"{model.get('id'):<58}"\<close>: \<open>model.get('id')\<close> has no default, so a missing key
  gives \<open>None\<close>, and \<open>None\<close> does not accept the format \<open><58\<close>: the f-string raises
  \<open>TypeError\<close>.
\<close>

definition format_id :: "string option \<Rightarrow> py_error + string" where
  "format_id v = (case v of None \<Rightarrow> Inl TypeError | Some s \<Rightarrow> Inr s)"

section \<open>check\_specific\_models\<close>

text \<open>
  The inner loop (lines 56 to 62): the two accumulators are \<open>found_free_models\<close> and
  \<open>found_non_free_models\<close>.
\<close>

fun collect_matches ::
  "string \<Rightarrow> model list \<Rightarrow> model list \<times> model list \<Rightarrow> model list \<times> model list" where
  "collect_matches name [] (found_free, found_non_free) = (found_free, found_non_free)"
| "collect_matches name (m # ms) (found_free, found_non_free) =
     (let model_id = get_id m [] in
      if str_in name model_id then
        (if endswith model_id '':free''
         then collect_matches name ms (found_free @ [m], found_non_free)
         else collect_matches name ms (found_free, found_non_free @ [m]))
      else collect_matches name ms (found_free, found_non_free))"

text \<open>
  The loops that print the rows (lines 69 to 71 and 78 to 80, the same code): the lines
  printed, and whether the loop ended or raised.
\<close>

fun print_matches :: "model list \<Rightarrow> out_line list \<times> (py_error + unit)" where
  "print_matches [] = ([], Inr ())"
| "print_matches (m # ms) =
     (let context_len = format_thousands (get_context_length m) in
      case format_id (id_field m) of
        Inl e \<Rightarrow> ([], Inl e)
      | Inr s \<Rightarrow>
          (case print_matches ms of
             (out, r) \<Rightarrow> (Match_row s context_len # out, r)))"

text \<open>The body of the loop over the names (lines 51 to 84).\<close>

definition check_query :: "string \<Rightarrow> model list \<Rightarrow> out_line list \<times> (py_error + unit)" where
  "check_query name all_models =
     (case collect_matches name all_models ([], []) of
        (found_free_models, found_non_free_models) \<Rightarrow>
          if found_free_models \<noteq> [] then
            (case print_matches found_free_models of
               (out, r) \<Rightarrow> ([Query_line name, Status_free, Match_header, Match_rule] @ out, r))
          else if found_non_free_models \<noteq> [] then
            (case print_matches found_non_free_models of
               (out, r) \<Rightarrow> ([Query_line name, Status_not_free, Match_header, Match_rule] @ out, r))
          else ([Query_line name, Status_not_found], Inr ()))"

text \<open>The loop over the names: an exception ends it.\<close>

fun check_queries :: "string list \<Rightarrow> model list \<Rightarrow> out_line list \<times> (py_error + unit)" where
  "check_queries [] all_models = ([], Inr ())"
| "check_queries (name # names) all_models =
     (case check_query name all_models of
        (out, Inl e) \<Rightarrow> (out, Inl e)
      | (out, Inr u) \<Rightarrow>
          (case check_queries names all_models of
             (out', r) \<Rightarrow> (out @ out', r)))"

text \<open>\<open>[name.strip() for name in models_to_check_str.split(';')]\<close>\<close>

definition model_names_to_check :: "string \<Rightarrow> string list" where
  "model_names_to_check models_to_check_str = map strip (split_on CHR '';'' models_to_check_str)"

definition check_specific_models ::
  "string \<Rightarrow> model list option \<Rightarrow> out_line list \<times> (py_error + unit)" where
  "check_specific_models models_to_check_str all_models =
     (case all_models of
        None \<Rightarrow> ([Check_banner, Cannot_perform_check], Inr ())
      | Some ms \<Rightarrow>
          if ms = [] then ([Check_banner, Cannot_perform_check], Inr ())
          else (case check_queries (model_names_to_check models_to_check_str) ms of
                  (out, r) \<Rightarrow> (Check_banner # out, r)))"

section \<open>display\_free\_models\_with\_supplier\<close>

text \<open>The key of \<open>sorted\<close>: \<open>(m.get('id', 'z').split('/')[0], m.get('id', ''))\<close>.\<close>

definition supplier_key :: "model \<Rightarrow> string \<times> string" where
  "supplier_key m = (first_segment CHR ''/'' (get_id m ''z''), get_id m [])"

text \<open>The body of the loop over the sorted records (lines 123 to 126).\<close>

definition table_row :: "model \<Rightarrow> out_line" where
  "table_row m =
     (let model_id = get_id m ''N/A'';
          supplier = (if CHR ''/'' \<in> set model_id then first_segment CHR ''/'' model_id
                      else ''N/A'');
          context_length = format_thousands (get_context_length m)
      in Table_row supplier model_id context_length)"

text \<open>
  \<open>sorted\<close> is stable, as \<open>sort_key\<close> is. The function raises nothing on records of
  type \<open>model\<close>, so it returns the printed lines only.
\<close>

definition display_free_models_with_supplier :: "model list option \<Rightarrow> out_line list" where
  "display_free_models_with_supplier models =
     (case models of
        None \<Rightarrow> [Table_banner, No_free_models]
      | Some ms \<Rightarrow>
          if ms = [] then [Table_banner, No_free_models]
          else [Table_banner, Table_header, Table_rule]
               @ map table_row (sort_key supplier_key ms))"

section \<open>fetch\_models\<close>

text \<open>
  What the request of \<open>fetch_models\<close> can meet, as the \<open>requests\<close> library reports it:
  \<^item> \<open>requests.get\<close> raises a \<open>RequestException\<close> (no connection, timeout, ...);
  \<^item> or it returns a response with a status code and a body.
  \<open>response.raise_for_status()\<close> raises \<open>HTTPError\<close>, a \<open>RequestException\<close>, for the
  status codes from 400 to 599 and for no other. \<open>response.json()\<close> raises
  \<open>requests.exceptions.JSONDecodeError\<close> on a body that is not JSON; this class is a
  subclass of \<open>RequestException\<close>, so the first \<open>except\<close> clause catches it and the
  second is never reached.
\<close>

datatype json =
    JNull
  | JBool bool
  | JNumber int
  | JString string
  | JArray "json list"
  | JObject "(string \<times> json) list"

text \<open>
  The parsed body. A JSON object is a dictionary. The value of a key is \<open>None\<close> for
  JSON \<open>null\<close>, which \<open>response.json()\<close> gives as Python's \<open>None\<close>, and \<open>Some v\<close> for
  any other value \<open>v\<close>; \<open>'d\<close> is the type of these values, which \<open>fetch_models\<close>
  never looks into. The other JSON values are kept as far as
  \<open>"data" in data\<close> reads them: the elements of an array, the text of a string; a
  number, \<open>true\<close>, \<open>false\<close> and \<open>null\<close> are \<open>Doc_scalar\<close>.
\<close>

datatype 'd json_doc =
    Doc_object "string \<rightharpoonup> 'd option"
  | Doc_array "json list"
  | Doc_string string
  | Doc_scalar

datatype 'd body = Not_json | Json "'d json_doc"

datatype 'd http_result = Request_raises | Response nat "'d body"

text \<open>
  The result is \<open>Inr None\<close> when the function returns Python's \<open>None\<close>: by
  \<open>return None\<close>, and by \<open>return data["data"]\<close> when the \<open>data\<close> field is \<open>null\<close>. It is
  \<open>Inr (Some v)\<close> when \<open>return data["data"]\<close> returns another value \<open>v\<close>, and
  \<open>Inl TypeError\<close> for the exception no clause catches: \<open>"data" not in data\<close> raises
  it on a number, a boolean and \<open>None\<close>, and \<open>data["data"]\<close> raises it on a list and on a
  string.
\<close>

definition fetch_models :: "'d http_result \<Rightarrow> out_line list \<times> (py_error + 'd option)" where
  "fetch_models r =
     (case r of
        Request_raises \<Rightarrow> ([Err_unable_to_connect, Err_details], Inr None)
      | Response status_code b \<Rightarrow>
          if 400 \<le> status_code \<and> status_code < 600
          then ([Err_unable_to_connect, Err_details], Inr None)
          else (case b of
                  Not_json \<Rightarrow> ([Err_unable_to_connect, Err_details], Inr None)
                | Json data \<Rightarrow>
                    (case data of
                       Doc_object d \<Rightarrow>
                         (case d ''data'' of
                            None \<Rightarrow> ([Err_no_data_field], Inr None)
                          | Some v \<Rightarrow> ([], Inr v))
                     | Doc_array xs \<Rightarrow>
                         if JString ''data'' \<in> set xs then ([], Inl TypeError)
                         else ([Err_no_data_field], Inr None)
                     | Doc_string s \<Rightarrow>
                         if str_in ''data'' s then ([], Inl TypeError)
                         else ([Err_no_data_field], Inr None)
                     | Doc_scalar \<Rightarrow> ([], Inl TypeError))))"

section \<open>The program entry point\<close>

definition MODELS_TO_CHECK :: string where
  "MODELS_TO_CHECK = ''gpt-oss-20b;deepseek-r1;qwen''"

text \<open>
  The block under \<open>if __name__ == "__main__"\<close>, with the configuration string and the
  outcome of the request as parameters. \<open>if all_models_data\<close> holds for a list that is
  not empty; there is no \<open>else\<close>.
\<close>

definition main :: "string \<Rightarrow> model list http_result \<Rightarrow> out_line list \<times> (py_error + unit)" where
  "main models_to_check r =
     (case fetch_models r of
        (out, Inl e) \<Rightarrow> (Fetching_banner # out, Inl e)
      | (out, Inr all_models_data) \<Rightarrow>
          if all_models_data \<noteq> None \<and> all_models_data \<noteq> Some [] then
            (case check_specific_models models_to_check all_models_data of
               (out_check, Inl e) \<Rightarrow>
                 (Fetching_banner # out @ [Fetch_ok_banner] @ out_check, Inl e)
             | (out_check, Inr u) \<Rightarrow>
                 (let free_models_list = filter_free_models all_models_data in
                  (Fetching_banner # out @ [Fetch_ok_banner] @ out_check
                     @ display_free_models_with_supplier (Some free_models_list),
                   Inr ())))
          else (Fetching_banner # out, Inr ()))"

section \<open>Vocabulary of the properties\<close>

text \<open>A record is free when it has an id and the id ends with \<open>:free\<close>.\<close>

definition is_free :: "model \<Rightarrow> bool" where
  "is_free m = (\<exists>s. id_field m = Some s \<and> suffix '':free'' s)"

text \<open>
  A record matches a query when the query occurs in its id; a record with no id is
  scanned with the empty id.
\<close>

definition matches :: "string \<Rightarrow> model \<Rightarrow> bool" where
  "matches q m = (\<exists>ps ss. get_id m [] = ps @ q @ ss)"

text \<open>The row of a match that has an id.\<close>

definition match_row :: "model \<Rightarrow> out_line" where
  "match_row m = Match_row (the (id_field m)) (format_thousands (get_context_length m))"

text \<open>
  The report of one query, in the words of the selection policy: the free matches when
  there are any, else the matches that are not free when there are any, else "not found".
\<close>

definition policy_report :: "string \<Rightarrow> model list \<Rightarrow> out_line list" where
  "policy_report q R =
     (let free = filter (\<lambda>m. matches q m \<and> is_free m) R;
          nonFree = filter (\<lambda>m. matches q m \<and> \<not> is_free m) R
      in if free \<noteq> [] then
           [Query_line q, Status_free, Match_header, Match_rule] @ map match_row free
         else if nonFree \<noteq> [] then
           [Query_line q, Status_not_free, Match_header, Match_rule] @ map match_row nonFree
         else [Query_line q, Status_not_found])"

text \<open>The lines that report the status of a query.\<close>

fun is_status :: "out_line \<Rightarrow> bool" where
  "is_status Status_free = True"
| "is_status Status_not_free = True"
| "is_status Status_not_found = True"
| "is_status l = False"

text \<open>The supplier and id columns of the table rows among printed lines, in order.\<close>

fun row_pairs :: "out_line list \<Rightarrow> (string \<times> string) list" where
  "row_pairs [] = []"
| "row_pairs (Table_row supplier model_id c # ls) = (supplier, model_id) # row_pairs ls"
| "row_pairs (l # ls) = row_pairs ls"

text \<open>
  The supplier of an id, in the words of the specification: the part of the id before
  the first \<open>/\<close>, or \<open>N/A\<close> when the id has no \<open>/\<close>.
\<close>

definition supplier_of :: "string \<Rightarrow> string" where
  "supplier_of model_id =
     (if CHR ''/'' \<in> set model_id then takeWhile (\<lambda>c. c \<noteq> CHR ''/'') model_id else ''N/A'')"

text \<open>The table rows among the printed lines.\<close>

fun is_row :: "out_line \<Rightarrow> bool" where
  "is_row (Match_row s c) = True"
| "is_row (Table_row s i c) = True"
| "is_row l = False"

text \<open>
  The parsed bodies on which \<open>"data" not in data\<close> and \<open>data["data"]\<close> raise nothing: a
  dictionary, and a list or a string in which \<open>"data"\<close> does not occur.
\<close>

fun data_lookup_defined :: "'d json_doc \<Rightarrow> bool" where
  "data_lookup_defined (Doc_object d) = True"
| "data_lookup_defined (Doc_array xs) = (JString ''data'' \<notin> set xs)"
| "data_lookup_defined (Doc_string s) = (\<not> str_in ''data'' s)"
| "data_lookup_defined Doc_scalar = False"

text \<open>
  The \<open>data\<close> field of a parsed body, when it has one: \<open>Some None\<close> is a field with
  the value \<open>null\<close>.
\<close>

fun data_member :: "'d json_doc \<Rightarrow> 'd option option" where
  "data_member (Doc_object d) = d ''data''"
| "data_member doc = None"

text \<open>
  The failure cases of the request: it raises, the status is an error status (400 to
  599), the body is not JSON, or the parsed body has no \<open>data\<close> field.
\<close>

fun fetch_failure :: "'d http_result \<Rightarrow> bool" where
  "fetch_failure Request_raises = True"
| "fetch_failure (Response status_code Not_json) = True"
| "fetch_failure (Response status_code (Json doc)) =
     ((400 \<le> status_code \<and> status_code < 600) \<or> data_member doc = None)"

text \<open>The outcomes on which \<open>fetch_models\<close> reaches no lookup that raises.\<close>

fun lookup_defined :: "'d http_result \<Rightarrow> bool" where
  "lookup_defined Request_raises = True"
| "lookup_defined (Response status_code Not_json) = True"
| "lookup_defined (Response status_code (Json doc)) =
     ((400 \<le> status_code \<and> status_code < 600) \<or> data_lookup_defined doc)"

section \<open>Facts about the string operations\<close>

lemma endswith_suffix: "endswith s suf = suffix suf s"
proof
  assume "endswith s suf"
  then have "s = take (length s - length suf) s @ suf"
    by (metis append_take_drop_id endswith_def)
  then show "suffix suf s"
    by (metis suffixI)
next
  assume "suffix suf s"
  then obtain zs where "s = zs @ suf"
    by (auto simp: suffix_def)
  then show "endswith s suf"
    by (simp add: endswith_def)
qed

lemma str_in_sublist: "str_in q s = sublist q s"
  by (induction s) (auto simp: sublist_Cons_right)

lemma str_in_occurs: "str_in q s = (\<exists>ps ss. s = ps @ q @ ss)"
  by (simp add: str_in_sublist sublist_def)

lemma str_in_empty: "str_in [] s"
  by (simp add: str_in_sublist)

lemma split_on_not_Nil: "split_on sep s \<noteq> []"
  by (induction s) (auto split: list.splits)

lemma first_segment_takeWhile: "first_segment sep s = takeWhile (\<lambda>c. c \<noteq> sep) s"
proof (induction s)
  case Nil
  then show ?case by (simp add: first_segment_def)
next
  case (Cons c cs)
  then show ?case
    using split_on_not_Nil [of sep cs]
    by (auto simp: first_segment_def split: list.splits)
qed

lemma first_segment_no_sep: "sep \<notin> set s \<Longrightarrow> first_segment sep s = s"
  by (auto simp: first_segment_takeWhile takeWhile_eq_all_conv)

section \<open>Facts about filter\_free\_models\<close>

lemma is_free_endswith: "endswith (get_id m []) '':free'' = is_free m"
  by (cases "id_field m") (simp_all add: get_id_def is_free_def endswith_suffix)

lemma filter_free_loop_filter: "filter_free_loop acc ms = acc @ filter is_free ms"
  by (induction ms arbitrary: acc) (simp_all add: is_free_endswith)

lemma filter_free_models_Some: "filter_free_models (Some ms) = filter is_free ms"
  by (simp add: filter_free_models_def filter_free_loop_filter)

text \<open>
  C5: for every record list, \<open>filter_free_models\<close> returns exactly the records whose id
  ends with the suffix \<open>:free\<close>, in their original order, and the empty list when the
  input is empty.
\<close>

theorem filter_free_models_exact:
  "filter_free_models (Some ms) = filter (\<lambda>m. \<exists>s. id_field m = Some s \<and> suffix '':free'' s) ms
   \<and> filter_free_models (Some []) = []
   \<and> filter_free_models None = []"
proof -
  have "filter_free_models (Some ms) = filter is_free ms"
    by (rule filter_free_models_Some)
  moreover have "is_free = (\<lambda>m. \<exists>s. id_field m = Some s \<and> suffix '':free'' s)"
    by (rule ext) (simp add: is_free_def)
  moreover have "filter_free_models (Some []) = []" "filter_free_models None = []"
    by (simp_all add: filter_free_models_def)
  ultimately show ?thesis by simp
qed

text \<open>
  C6: \<open>filter_free_models\<close> is idempotent: filtering its own result gives the same
  list.
\<close>

theorem filter_free_models_idempotent:
  "filter_free_models (Some (filter_free_models models)) = filter_free_models models"
proof (cases models)
  case None
  then show ?thesis by (simp add: filter_free_models_def)
next
  case (Some ms)
  then show ?thesis by (simp add: filter_free_models_Some)
qed

section \<open>Facts about check\_specific\_models\<close>

lemma str_in_matches: "str_in q (get_id m []) = matches q m"
  by (simp add: str_in_occurs matches_def)

lemma is_free_has_id: "is_free m \<Longrightarrow> id_field m \<noteq> None"
  by (auto simp: is_free_def)

lemma matches_has_id: "matches q m \<Longrightarrow> q \<noteq> [] \<Longrightarrow> id_field m \<noteq> None"
  by (cases "id_field m") (auto simp: matches_def get_id_def)

lemma matches_empty: "matches [] m"
  unfolding matches_def by (metis append_Nil append_Nil2)

lemma collect_matches_filter:
  "collect_matches q ms (fr, nf) =
     (fr @ filter (\<lambda>m. matches q m \<and> is_free m) ms,
      nf @ filter (\<lambda>m. matches q m \<and> \<not> is_free m) ms)"
  by (induction ms arbitrary: fr nf) (simp_all add: str_in_matches is_free_endswith Let_def)

lemma print_matches_ok:
  "\<forall>m\<in>set ms. id_field m \<noteq> None \<Longrightarrow> print_matches ms = (map match_row ms, Inr ())"
  by (induction ms) (auto simp: format_id_def match_row_def Let_def)

lemma print_matches_rows:
  "Match_row s c \<in> set (fst (print_matches ms)) \<Longrightarrow> \<exists>m\<in>set ms. id_field m = Some s"
  by (induction ms) (auto simp: format_id_def Let_def split: option.splits prod.splits)

lemma print_matches_no_status: "filter is_status (fst (print_matches ms)) = []"
  by (induction ms) (auto simp: format_id_def Let_def split: option.splits prod.splits)

lemma print_matches_result:
  "snd (print_matches ms) = (if \<exists>m\<in>set ms. id_field m = None then Inl TypeError else Inr ())"
  by (induction ms) (auto simp: format_id_def Let_def split: option.splits prod.splits)

lemma print_matches_raises:
  "\<exists>m\<in>set ms. id_field m = None \<Longrightarrow> snd (print_matches ms) = Inl TypeError"
  by (simp add: print_matches_result)

lemma check_query_policy:
  assumes "q \<noteq> [] \<or> (\<exists>m\<in>set R. is_free m) \<or> (\<forall>m\<in>set R. id_field m \<noteq> None)"
  shows "check_query q R = (policy_report q R, Inr ())"
proof -
  let ?free = "filter (\<lambda>m. matches q m \<and> is_free m) R"
  let ?non = "filter (\<lambda>m. matches q m \<and> \<not> is_free m) R"
  have f: "print_matches ?free = (map match_row ?free, Inr ())"
    by (rule print_matches_ok) (auto dest: is_free_has_id)
  show ?thesis
  proof (cases "?free = []")
    case False
    then show ?thesis
      by (simp add: check_query_def collect_matches_filter policy_report_def f Let_def)
  next
    case True
    have "q \<noteq> [] \<or> (\<forall>m\<in>set R. id_field m \<noteq> None)"
    proof (rule ccontr)
      assume "\<not> ?thesis"
      with assms obtain m where "q = []" "m \<in> set R" "is_free m"
        by auto
      then have "m \<in> set ?free"
        by (simp add: matches_empty)
      with True show False
        by simp
    qed
    then have n: "print_matches ?non = (map match_row ?non, Inr ())"
      by (intro print_matches_ok) (auto dest: matches_has_id)
    from True show ?thesis
      by (simp add: check_query_def collect_matches_filter policy_report_def n Let_def)
  qed
qed

lemma print_matches_no_status':
  "print_matches ms = (out, r) \<Longrightarrow> filter is_status out = []"
  using print_matches_no_status [of ms] by simp

lemma check_query_status:
  "filter is_status (fst (check_query q R)) =
     [if filter (\<lambda>m. matches q m \<and> is_free m) R \<noteq> [] then Status_free
      else if filter (\<lambda>m. matches q m \<and> \<not> is_free m) R \<noteq> [] then Status_not_free
      else Status_not_found]"
  by (auto simp: check_query_def collect_matches_filter split: prod.splits
      dest: print_matches_no_status')

lemma check_query_rows:
  assumes "Match_row s c \<in> set (fst (check_query q R))"
  shows "\<exists>m\<in>set R. matches q m \<and> id_field m = Some s"
proof -
  let ?free = "filter (\<lambda>m. matches q m \<and> is_free m) R"
  let ?non = "filter (\<lambda>m. matches q m \<and> \<not> is_free m) R"
  from assms have "Match_row s c \<in> set (fst (print_matches ?free))
      \<or> Match_row s c \<in> set (fst (print_matches ?non))"
    by (auto simp: check_query_def collect_matches_filter split: if_splits prod.splits)
  then show ?thesis
    by (auto dest!: print_matches_rows)
qed

lemma split_on_append:
  "split_on sep (s @ sep # t) = split_on sep s @ split_on sep t"
  by (induction s) (auto simp: split_on_not_Nil split: list.splits)

lemma strip_Nil: "strip [] = []"
  by (simp add: strip_def)

lemma names_leading: "[] \<in> set (model_names_to_check (CHR '';'' # s))"
  by (simp add: model_names_to_check_def strip_Nil)

lemma names_trailing: "[] \<in> set (model_names_to_check (s @ '';''))"
  using split_on_append [of "CHR '';''" s "[]"]
  by (simp add: model_names_to_check_def strip_Nil)

lemma names_double: "[] \<in> set (model_names_to_check (s @ '';;'' @ t))"
  using split_on_append [of "CHR '';''" s "CHR '';'' # t"]
  by (simp add: model_names_to_check_def strip_Nil)

lemma missing_id_not_free:
  "id_field m = None \<Longrightarrow> m \<notin> set (filter_free_models models)"
  by (cases models) (auto simp: filter_free_models_def filter_free_loop_filter is_free_def)

lemma missing_id_matched_by_empty_only:
  assumes "id_field m = None"
    and "collect_matches q R ([], []) = (found_free, found_non_free)"
    and "m \<in> set found_free \<union> set found_non_free"
  shows "q = [] \<and> m \<in> set found_non_free"
  using assms by (auto simp: collect_matches_filter dest: matches_has_id is_free_has_id)

text \<open>
  C7: every record that \<open>check_specific_models\<close> collects for a query \<open>q\<close> is a record
  of the list whose id contains \<open>q\<close> (the same characters, at any position), each of the
  two partitions keeps the order of the scan, and every row printed for \<open>q\<close> shows an id
  that contains \<open>q\<close>.
\<close>

theorem collect_matches_contain_query:
  assumes "collect_matches q R ([], []) = (found_free, found_non_free)"
  shows "(\<forall>m \<in> set found_free \<union> set found_non_free.
            m \<in> set R \<and> (\<exists>ps ss. get_id m [] = ps @ q @ ss))
    \<and> found_free = filter (\<lambda>m. matches q m \<and> is_free m) R
    \<and> found_non_free = filter (\<lambda>m. matches q m \<and> \<not> is_free m) R
    \<and> subseq found_free R \<and> subseq found_non_free R
    \<and> (\<forall>s c. Match_row s c \<in> set (fst (check_query q R)) \<longrightarrow> (\<exists>ps ss. s = ps @ q @ ss))"
proof -
  from assms have fr: "found_free = filter (\<lambda>m. matches q m \<and> is_free m) R"
    and nf: "found_non_free = filter (\<lambda>m. matches q m \<and> \<not> is_free m) R"
    by (simp_all add: collect_matches_filter)
  have "\<forall>m \<in> set found_free \<union> set found_non_free.
          m \<in> set R \<and> (\<exists>ps ss. get_id m [] = ps @ q @ ss)"
    by (auto simp: fr nf matches_def)
  moreover have "subseq found_free R" "subseq found_non_free R"
    by (simp_all add: fr nf)
  moreover have "\<exists>ps ss. s = ps @ q @ ss"
    if "Match_row s c \<in> set (fst (check_query q R))" for s c
  proof -
    from check_query_rows [OF that] obtain m where "matches q m" "id_field m = Some s"
      by blast
    then show ?thesis
      by (simp add: matches_def get_id_def)
  qed
  ultimately show ?thesis
    using fr nf by blast
qed

theorem collect_matches_contain_query_witness:
  "collect_matches ''r1''
     [\<lparr>id_field = Some ''a/r1:free'', context_length = Some 8\<rparr>,
      \<lparr>id_field = Some ''b/gpt'', context_length = None\<rparr>,
      \<lparr>id_field = Some ''a/r1'', context_length = None\<rparr>] ([], [])
   = ([\<lparr>id_field = Some ''a/r1:free'', context_length = Some 8\<rparr>],
      [\<lparr>id_field = Some ''a/r1'', context_length = None\<rparr>])
   \<and> subseq [\<lparr>id_field = Some ''a/r1:free'', context_length = Some 8\<rparr>]
        [\<lparr>id_field = Some ''a/r1:free'', context_length = Some 8\<rparr>,
         \<lparr>id_field = Some ''b/gpt'', context_length = None\<rparr>,
         \<lparr>id_field = Some ''a/r1'', context_length = None\<rparr>]
   \<and> (\<exists>ps ss. ''a/r1:free'' = ps @ ''r1'' @ ss)
   \<and> (\<exists>ps ss. ''a/r1'' = ps @ ''r1'' @ ss)"
proof -
  let ?m1 = "\<lparr>id_field = Some ''a/r1:free'', context_length = Some 8\<rparr>"
  let ?m2 = "\<lparr>id_field = Some ''b/gpt'', context_length = None\<rparr>"
  let ?m3 = "\<lparr>id_field = Some ''a/r1'', context_length = None\<rparr>"
  have h: "collect_matches ''r1'' [?m1, ?m2, ?m3] ([], []) = ([?m1], [?m3])"
    by (simp add: get_id_def endswith_def)
  from collect_matches_contain_query [OF h]
  have "(\<exists>ps ss. get_id ?m1 [] = ps @ ''r1'' @ ss)"
    and "(\<exists>ps ss. get_id ?m3 [] = ps @ ''r1'' @ ss)"
    and "subseq [?m1] [?m1, ?m2, ?m3]"
    by simp_all
  then show ?thesis
    using h by (simp add: get_id_def)
qed

text \<open>
  C9: a configuration string with a leading, a trailing or a double semicolon gives an
  empty query; the empty query matches every record, so the status reported for it is
  "free" when some record's id ends with \<open>:free\<close>, and otherwise "not free" (on a list
  that is not empty).
\<close>

theorem empty_query_matches_every_record:
  "[] \<in> set (model_names_to_check (CHR '';'' # s))
   \<and> [] \<in> set (model_names_to_check (s @ '';''))
   \<and> [] \<in> set (model_names_to_check (s @ '';;'' @ t))
   \<and> collect_matches [] R ([], []) = (filter is_free R, filter (\<lambda>m. \<not> is_free m) R)
   \<and> filter is_status (fst (check_query [] R)) =
       [if filter is_free R \<noteq> [] then Status_free
        else if R \<noteq> [] then Status_not_free
        else Status_not_found]"
proof -
  have c: "collect_matches [] R ([], []) = (filter is_free R, filter (\<lambda>m. \<not> is_free m) R)"
    by (simp add: collect_matches_filter matches_empty)
  have "filter (\<lambda>m. \<not> is_free m) R \<noteq> [] \<longleftrightarrow> R \<noteq> []" if "filter is_free R = []"
    using that by (induction R) (auto split: if_splits)
  then have "filter is_status (fst (check_query [] R)) =
       [if filter is_free R \<noteq> [] then Status_free
        else if R \<noteq> [] then Status_not_free
        else Status_not_found]"
    by (simp add: check_query_status matches_empty)
  with c show ?thesis
    using names_leading [of s] names_trailing [of s] names_double [of s t] by simp
qed

theorem empty_query_matches_every_record_witness:
  "[] \<in> set (model_names_to_check '';qwen'')
   \<and> collect_matches []
        [\<lparr>id_field = Some ''b/gpt'', context_length = None\<rparr>,
         \<lparr>id_field = Some ''a/r1:free'', context_length = Some 8\<rparr>] ([], [])
      = ([\<lparr>id_field = Some ''a/r1:free'', context_length = Some 8\<rparr>],
         [\<lparr>id_field = Some ''b/gpt'', context_length = None\<rparr>])
   \<and> filter is_status (fst (check_query []
        [\<lparr>id_field = Some ''b/gpt'', context_length = None\<rparr>,
         \<lparr>id_field = Some ''a/r1:free'', context_length = Some 8\<rparr>])) = [Status_free]"
  using empty_query_matches_every_record [of "''qwen''" "[]"
      "[\<lparr>id_field = Some ''b/gpt'', context_length = None\<rparr>,
        \<lparr>id_field = Some ''a/r1:free'', context_length = Some 8\<rparr>]"]
  by (simp add: is_free_def suffix_to_prefix)

lemma check_query_raises:
  assumes "\<forall>m\<in>set R. \<not> is_free m" and "\<exists>m\<in>set R. id_field m = None"
  shows "snd (check_query [] R) = Inl TypeError"
proof -
  have fr: "filter (\<lambda>m. matches [] m \<and> is_free m) R = []"
    using assms(1) by (simp add: filter_empty_conv)
  have nf: "filter (\<lambda>m. matches [] m \<and> \<not> is_free m) R = R"
    using assms(1) by (simp add: matches_empty filter_id_conv)
  from assms(2) have ne: "R \<noteq> []"
    by auto
  obtain out res where p: "print_matches R = (out, res)"
    by (cases "print_matches R")
  with print_matches_raises [OF assms(2)] have "res = Inl TypeError"
    by simp
  with p ne show ?thesis
    by (simp add: check_query_def collect_matches_filter fr nf)
qed

lemma check_queries_policy:
  "[] \<notin> set names \<or> (\<exists>m\<in>set R. is_free m) \<or> (\<forall>m\<in>set R. id_field m \<noteq> None) \<Longrightarrow>
   check_queries names R = (concat (map (\<lambda>q. policy_report q R) names), Inr ())"
proof (induction names)
  case Nil
  then show ?case by simp
next
  case (Cons q names)
  then have "q \<noteq> [] \<or> (\<exists>m\<in>set R. is_free m) \<or> (\<forall>m\<in>set R. id_field m \<noteq> None)"
    and "[] \<notin> set names \<or> (\<exists>m\<in>set R. is_free m) \<or> (\<forall>m\<in>set R. id_field m \<noteq> None)"
    by auto
  with Cons.IH show ?case
    by (simp add: check_query_policy)
qed

lemma check_specific_models_policy:
  assumes "R \<noteq> []"
    and "[] \<notin> set (model_names_to_check models_to_check_str)
         \<or> (\<exists>m\<in>set R. is_free m) \<or> (\<forall>m\<in>set R. id_field m \<noteq> None)"
  shows "check_specific_models models_to_check_str (Some R) =
           (Check_banner #
              concat (map (\<lambda>q. policy_report q R) (model_names_to_check models_to_check_str)),
            Inr ())"
  using assms by (simp add: check_specific_models_def check_queries_policy)

lemma check_specific_models_policy_example:
  "check_specific_models ''r1;gpt''
     (Some [\<lparr>id_field = Some ''a/r1:free'', context_length = Some 131072\<rparr>,
            \<lparr>id_field = Some ''b/gpt'', context_length = None\<rparr>,
            \<lparr>id_field = Some ''a/r1'', context_length = Some 131072\<rparr>])
   = ([Check_banner,
       Query_line ''r1'', Status_free, Match_header, Match_rule,
       Match_row ''a/r1:free'' ''131,072'',
       Query_line ''gpt'', Status_not_free, Match_header, Match_rule,
       Match_row ''b/gpt'' ''0''],
      Inr ())"
proof -
  let ?R = "[\<lparr>id_field = Some ''a/r1:free'', context_length = Some 131072\<rparr>,
             \<lparr>id_field = Some ''b/gpt'', context_length = None\<rparr>,
             \<lparr>id_field = Some ''a/r1'', context_length = Some 131072\<rparr>]"
  have n: "model_names_to_check ''r1;gpt'' = [''r1'', ''gpt'']"
    by (simp add: model_names_to_check_def strip_def isspace_def)
  have h1: "?R \<noteq> []"
    by simp
  have h2: "[] \<notin> set (model_names_to_check ''r1;gpt'')
      \<or> (\<exists>m\<in>set ?R. is_free m) \<or> (\<forall>m\<in>set ?R. id_field m \<noteq> None)"
    by (simp add: n)
  have p1: "policy_report ''r1'' ?R =
      [Query_line ''r1'', Status_free, Match_header, Match_rule,
       Match_row ''a/r1:free'' ''131,072'']"
    by (simp add: policy_report_def str_in_matches [symmetric] is_free_endswith [symmetric]
        get_id_def endswith_def match_row_def get_context_length_def format_thousands_def
        digits.simps)
  have p2: "policy_report ''gpt'' ?R =
      [Query_line ''gpt'', Status_not_free, Match_header, Match_rule, Match_row ''b/gpt'' ''0'']"
    by (simp add: policy_report_def str_in_matches [symmetric] is_free_endswith [symmetric]
        get_id_def endswith_def match_row_def get_context_length_def format_thousands_def
        digits.simps)
  from check_specific_models_policy [OF h1 h2] show ?thesis
    by (simp add: n p1 p2)
qed

text \<open>
  C1: the selection policy, as the claim states it, is \<open>policy_report\<close>. The code
  follows it for every query that is not empty, and for the empty query whenever some
  record is free or every record has an id (\<open>check_query_policy\<close>,
  \<open>check_specific_models_policy\<close>). On the empty query, with no free record and a
  record that has no id, the claim has the status "not free" and the matches that are not
  free listed; the code prints the status and the header, raises \<open>TypeError\<close> on the
  row of the record with no id (\<open>check_query_raises\<close>), and lists nothing from there on.
\<close>

theorem check_specific_models_not_free_list_raises:
  "check_specific_models [] (Some [\<lparr>id_field = None, context_length = Some 5\<rparr>])
   = ([Check_banner, Query_line [], Status_not_free, Match_header, Match_rule], Inl TypeError)"
  by (simp add: check_specific_models_def model_names_to_check_def strip_def check_query_def
      get_id_def endswith_def format_id_def)

text \<open>
  C10: a record with no id is scanned as if its id were empty (\<open>missing_id_not_free\<close>,
  \<open>missing_id_matched_by_empty_only\<close>), but an operation does raise on it:
  \<open>check_specific_models\<close> prints the row of such a match with \<open>model.get('id')\<close>, with no
  default, and the second query below, the empty one, ends in \<open>TypeError\<close>.
\<close>

theorem check_specific_models_missing_id_raises:
  "check_specific_models ''qwen;''
     (Some [\<lparr>id_field = Some ''qwen/qwen3'', context_length = Some 4096\<rparr>,
            \<lparr>id_field = None, context_length = None\<rparr>])
   = ([Check_banner,
       Query_line ''qwen'', Status_not_free, Match_header, Match_rule,
       Match_row ''qwen/qwen3'' ''4,096'',
       Query_line [], Status_not_free, Match_header, Match_rule,
       Match_row ''qwen/qwen3'' ''4,096''],
      Inl TypeError)"
  by (simp add: check_specific_models_def model_names_to_check_def strip_def check_query_def
      get_id_def endswith_def format_id_def get_context_length_def format_thousands_def
      digits.simps isspace_def)

section \<open>Facts about display\_free\_models\_with\_supplier\<close>

lemma table_row_with_id:
  "id_field m = Some s \<Longrightarrow>
   table_row m =
     Table_row (if CHR ''/'' \<in> set s then takeWhile (\<lambda>c. c \<noteq> CHR ''/'') s else ''N/A'') s
       (format_thousands (get_context_length m))"
  by (simp add: table_row_def get_id_def first_segment_takeWhile)

lemma supplier_key_with_id:
  "id_field m = Some s \<Longrightarrow> supplier_key m = (first_segment CHR ''/'' s, s)"
  by (simp add: supplier_key_def get_id_def)

lemma row_pairs_table_rows:
  "row_pairs (map table_row ms) =
     map (\<lambda>m. (if CHR ''/'' \<in> set (get_id m ''N/A'')
                then first_segment CHR ''/'' (get_id m ''N/A'') else ''N/A'',
                get_id m ''N/A'')) ms"
  by (induction ms) (simp_all add: table_row_def Let_def)

lemma row_pairs_display:
  "row_pairs (display_free_models_with_supplier (Some ms)) =
     map (\<lambda>m. (if CHR ''/'' \<in> set (get_id m ''N/A'')
                then first_segment CHR ''/'' (get_id m ''N/A'') else ''N/A'',
                get_id m ''N/A'')) (sort_key supplier_key ms)"
  by (simp add: display_free_models_with_supplier_def row_pairs_table_rows)

lemma sorted_keys: "sorted (map supplier_key (sort_key supplier_key ms))"
  by (rule sorted_sort_key)

lemma display_keys:
  assumes "\<forall>m\<in>set ms. id_field m \<noteq> None"
  shows "map (\<lambda>(supplier, model_id). (first_segment CHR ''/'' model_id, model_id))
           (row_pairs (display_free_models_with_supplier (Some ms)))
         = map supplier_key (sort_key supplier_key ms)"
proof -
  have "(first_segment CHR ''/'' (get_id m ''N/A''), get_id m ''N/A'') = supplier_key m"
    if "m \<in> set ms" for m
    using that assms by (auto simp: supplier_key_def get_id_def)
  then show ?thesis
    by (simp add: row_pairs_display)
qed

text \<open>
  C4, as the code has it: for a list of records that all have an id, the printed rows are
  the records of the list, sorted ascending by the pair (first path segment of the id,
  id); and two adjacent rows whose ids both contain \<open>/\<close> are in the order of their
  printed (supplier, id) pairs.
\<close>

theorem display_sorted_by_first_segment:
  assumes "\<forall>m\<in>set ms. id_field m \<noteq> None"
  shows "sorted (map (\<lambda>(supplier, model_id). (first_segment CHR ''/'' model_id, model_id))
                  (row_pairs (display_free_models_with_supplier (Some ms))))
    \<and> length (row_pairs (display_free_models_with_supplier (Some ms))) = length ms
    \<and> set (map snd (row_pairs (display_free_models_with_supplier (Some ms))))
        = (\<lambda>m. the (id_field m)) ` set ms
    \<and> (\<forall>k. Suc k < length ms
          \<longrightarrow> CHR ''/'' \<in> set (snd (row_pairs (display_free_models_with_supplier (Some ms)) ! k))
          \<longrightarrow> CHR ''/'' \<in> set (snd (row_pairs (display_free_models_with_supplier (Some ms)) ! Suc k))
          \<longrightarrow> row_pairs (display_free_models_with_supplier (Some ms)) ! k
              \<le> row_pairs (display_free_models_with_supplier (Some ms)) ! Suc k)"
proof -
  let ?rows = "row_pairs (display_free_models_with_supplier (Some ms))"
  let ?key = "\<lambda>(supplier, model_id). (first_segment CHR ''/'' model_id, model_id)"
  have keys: "map ?key ?rows = map supplier_key (sort_key supplier_key ms)"
    by (rule display_keys [OF assms])
  then have srt: "sorted (map ?key ?rows)"
    by (simp add: sorted_keys)
  have len: "length ?rows = length ms"
    by (simp add: row_pairs_display)
  have "snd ` set ?rows = (\<lambda>m. get_id m ''N/A'') ` set ms"
    by (simp add: row_pairs_display image_image)
  also have "\<dots> = (\<lambda>m. the (id_field m)) ` set ms"
    using assms by (intro image_cong) (auto simp: get_id_def)
  finally have ids: "set (map snd ?rows) = (\<lambda>m. the (id_field m)) ` set ms"
    by simp
  have adj: "?rows ! k \<le> ?rows ! Suc k"
    if k: "Suc k < length ms"
      and a: "CHR ''/'' \<in> set (snd (?rows ! k))"
      and b: "CHR ''/'' \<in> set (snd (?rows ! Suc k))" for k
  proof -
    have same: "?key (?rows ! j) = ?rows ! j"
      if "j < length ms" "CHR ''/'' \<in> set (snd (?rows ! j))" for j
      using that by (simp add: row_pairs_display split: if_splits)
    from srt k len have "map ?key ?rows ! k \<le> map ?key ?rows ! Suc k"
      by (intro sorted_nth_mono) simp_all
    with k len have "?key (?rows ! k) \<le> ?key (?rows ! Suc k)"
      by simp
    with same [of k] same [of "Suc k"] k a b show ?thesis
      by simp
  qed
  from srt len ids adj show ?thesis
    by blast
qed

theorem display_sorted_by_first_segment_witness:
  "row_pairs (display_free_models_with_supplier
      (Some [\<lparr>id_field = Some ''b/y:free'', context_length = None\<rparr>,
             \<lparr>id_field = Some ''a/x:free'', context_length = Some 8\<rparr>]))
     = [(''a'', ''a/x:free''), (''b'', ''b/y:free'')]
   \<and> sorted [(''a'', ''a/x:free''), (''b'', ''b/y:free'')]
   \<and> (''a'', ''a/x:free'') \<le> (''b'', ''b/y:free'')"
proof -
  let ?ms = "[\<lparr>id_field = Some ''b/y:free'', context_length = None\<rparr>,
              \<lparr>id_field = Some ''a/x:free'', context_length = Some 8\<rparr>]"
  have h: "\<forall>m\<in>set ?ms. id_field m \<noteq> None"
    by simp
  have r: "row_pairs (display_free_models_with_supplier (Some ?ms))
      = [(''a'', ''a/x:free''), (''b'', ''b/y:free'')]"
    by (simp add: display_free_models_with_supplier_def supplier_key_def table_row_def
        get_id_def first_segment_def less_eq_prod_def less_char_def less_eq_char_def Let_def)
  from display_sorted_by_first_segment [OF h]
  have "sorted (map (\<lambda>(supplier, model_id). (first_segment CHR ''/'' model_id, model_id))
                  (row_pairs (display_free_models_with_supplier (Some ?ms))))"
    and "CHR ''/'' \<in> set (snd (row_pairs (display_free_models_with_supplier (Some ?ms)) ! 0))
          \<longrightarrow> CHR ''/'' \<in> set (snd (row_pairs (display_free_models_with_supplier (Some ?ms)) ! Suc 0))
          \<longrightarrow> row_pairs (display_free_models_with_supplier (Some ?ms)) ! 0
              \<le> row_pairs (display_free_models_with_supplier (Some ?ms)) ! Suc 0"
    by simp_all
  then show ?thesis
    unfolding r by (simp add: first_segment_def)
qed

text \<open>
  C4 as stated fails. The supplier printed for an id with no \<open>/\<close> is \<open>N/A\<close>, while the
  sort key is the whole id: the row of \<open>a/x:free\<close> comes before the row of \<open>b:free\<close>,
  and \<open>(a, a/x:free)\<close> is not below \<open>(N/A, b:free)\<close>. And the key \<open>z\<close> of a record with
  no id does not sort last: the record comes before \<open>z-ai/glm:free\<close>.
\<close>

theorem display_rows_not_sorted_by_supplier:
  "row_pairs (display_free_models_with_supplier
      (Some [\<lparr>id_field = Some ''b:free'', context_length = None\<rparr>,
             \<lparr>id_field = Some ''a/x:free'', context_length = None\<rparr>]))
     = [(''a'', ''a/x:free''), (''N/A'', ''b:free'')]
   \<and> \<not> (''a'', ''a/x:free'') \<le> (''N/A'', ''b:free'')
   \<and> row_pairs (display_free_models_with_supplier
      (Some [\<lparr>id_field = Some ''z-ai/glm:free'', context_length = None\<rparr>,
             \<lparr>id_field = None, context_length = Some 5\<rparr>]))
     = [(''N'', ''N/A''), (''z-ai'', ''z-ai/glm:free'')]"
  by (simp add: display_free_models_with_supplier_def supplier_key_def table_row_def
      get_id_def first_segment_def less_eq_prod_def less_char_def less_eq_char_def Let_def)

lemma row_pairs_append: "row_pairs (xs @ ys) = row_pairs xs @ row_pairs ys"
  by (induction xs rule: row_pairs.induct) simp_all

lemma printed_pair_with_id:
  "id_field m \<noteq> None \<Longrightarrow>
   (if CHR ''/'' \<in> set (get_id m ''N/A'')
    then first_segment CHR ''/'' (get_id m ''N/A'') else ''N/A'', get_id m ''N/A'')
   = (supplier_of (the (id_field m)), the (id_field m))"
  by (auto simp: get_id_def supplier_of_def first_segment_takeWhile)

lemma row_pairs_display_ids:
  assumes "\<forall>m\<in>set ms. id_field m \<noteq> None"
  shows "row_pairs (display_free_models_with_supplier (Some ms)) =
     map (\<lambda>m. (supplier_of (the (id_field m)), the (id_field m))) (sort_key supplier_key ms)"
  unfolding row_pairs_display
proof (rule map_cong [OF refl])
  fix m
  assume "m \<in> set (sort_key supplier_key ms)"
  with assms have "id_field m \<noteq> None"
    by simp
  then show "(if CHR ''/'' \<in> set (get_id m ''N/A'')
      then first_segment CHR ''/'' (get_id m ''N/A'') else ''N/A'', get_id m ''N/A'')
    = (supplier_of (the (id_field m)), the (id_field m))"
    by (rule printed_pair_with_id)
qed

lemma row_pairs_print_matches: "row_pairs (fst (print_matches ms)) = []"
  by (induction ms) (auto simp: format_id_def Let_def split: option.splits prod.splits)

lemma row_pairs_check_query: "row_pairs (fst (check_query q R)) = []"
  using row_pairs_print_matches
  by (auto simp: check_query_def collect_matches_filter split: prod.splits)
     (metis fst_conv)+

lemma row_pairs_check_queries: "row_pairs (fst (check_queries names R)) = []"
proof (induction names)
  case Nil
  then show ?case by simp
next
  case (Cons q names)
  then show ?case
    using row_pairs_check_query [of q R]
    by (auto simp: row_pairs_append split: prod.splits sum.splits)
qed

lemma row_pairs_check_specific_models:
  "row_pairs (fst (check_specific_models cfg all_models)) = []"
  using row_pairs_check_queries
  by (auto simp: check_specific_models_def split: option.splits prod.splits) (metis fst_conv)

lemma row_pairs_fetch_models: "row_pairs (fst (fetch_models r)) = []"
  by (auto simp: fetch_models_def
      split: http_result.splits body.splits json_doc.splits option.splits)

lemma filter_free_models_ids: "\<forall>m\<in>set (filter_free_models models). id_field m \<noteq> None"
  by (cases models) (auto simp: filter_free_models_def filter_free_loop_filter dest: is_free_has_id)

lemma row_pairs_main:
  "(supplier, model_id) \<in> set (row_pairs (fst (main cfg r))) \<Longrightarrow> supplier = supplier_of model_id"
proof -
  assume a: "(supplier, model_id) \<in> set (row_pairs (fst (main cfg r)))"
  obtain out res where f: "fetch_models r = (out, res)"
    by (cases "fetch_models r")
  have o: "row_pairs out = []"
    using row_pairs_fetch_models [of r] f by simp
  show ?thesis
  proof (cases res)
    case (Inl e)
    with a f o show ?thesis
      by (simp add: main_def)
  next
    case (Inr d)
    obtain oc rc where c: "check_specific_models cfg d = (oc, rc)"
      by (cases "check_specific_models cfg d")
    have oc: "row_pairs oc = []"
      using row_pairs_check_specific_models [of cfg d] c by simp
    let ?fl = "filter_free_models d"
    from a f Inr c o oc
    have "(supplier, model_id) \<in> set (row_pairs (display_free_models_with_supplier (Some ?fl)))"
      by (cases rc) (auto simp: main_def row_pairs_append Let_def split: if_splits)
    then show ?thesis
      by (auto simp: row_pairs_display_ids [OF filter_free_models_ids])
  qed
qed


text \<open>
  C8: for every record that has an id, the row printed by
  \<open>display_free_models_with_supplier\<close> shows the id and, as supplier, the part of the id
  before the first \<open>/\<close>, or \<open>N/A\<close> when the id has no \<open>/\<close>. The records the program
  passes to the function are the result of \<open>filter_free_models\<close>, which all have an id:
  every table row the program prints shows the supplier of its id.
\<close>

theorem display_supplier_column:
  "((\<forall>m\<in>set ms. id_field m \<noteq> None) \<longrightarrow>
      row_pairs (display_free_models_with_supplier (Some ms)) =
        map (\<lambda>m. (supplier_of (the (id_field m)), the (id_field m)))
          (sort_key supplier_key ms))
   \<and> (\<forall>p\<in>set (row_pairs (fst (main cfg r))). fst p = supplier_of (snd p))"
  using row_pairs_display_ids [of ms] row_pairs_main [of _ _ cfg r]
  by auto

theorem display_supplier_column_witness:
  "row_pairs (display_free_models_with_supplier
      (Some [\<lparr>id_field = Some ''b:free'', context_length = None\<rparr>,
             \<lparr>id_field = Some ''a/x:free'', context_length = Some 8\<rparr>]))
     = [(''a'', ''a/x:free''), (''N/A'', ''b:free'')]"
proof -
  let ?ms = "[\<lparr>id_field = Some ''b:free'', context_length = None\<rparr>,
              \<lparr>id_field = Some ''a/x:free'', context_length = Some 8\<rparr>]"
  have h: "\<forall>m\<in>set ?ms. id_field m \<noteq> None"
    by simp
  with display_supplier_column [of ?ms]
  have "row_pairs (display_free_models_with_supplier (Some ?ms)) =
        map (\<lambda>m. (supplier_of (the (id_field m)), the (id_field m)))
          (sort_key supplier_key ?ms)"
    by blast
  also have "\<dots> = [(''a'', ''a/x:free''), (''N/A'', ''b:free'')]"
    by (simp add: supplier_key_def get_id_def first_segment_def supplier_of_def
        less_eq_prod_def less_char_def less_eq_char_def)
  finally show ?thesis .
qed

text \<open>
  A record with no id never reaches the table in the program. Called with one, the
  function takes \<open>N/A\<close> for the id and splits it at its \<open>/\<close>.
\<close>

lemma display_record_without_id:
  "display_free_models_with_supplier (Some [\<lparr>id_field = None, context_length = Some 5\<rparr>])
   = [Table_banner, Table_header, Table_rule, Table_row ''N'' ''N/A'' ''5'']"
  by (simp add: display_free_models_with_supplier_def table_row_def get_id_def
      first_segment_def get_context_length_def format_thousands_def digits.simps)

section \<open>Facts about fetch\_models and the entry point\<close>

lemma fetch_models_failure:
  assumes "lookup_defined r" and "fetch_failure r"
  shows "fetch_models r = ([Err_unable_to_connect, Err_details], Inr None)
       \<or> fetch_models r = ([Err_no_data_field], Inr None)"
proof (cases r)
  case Request_raises
  then show ?thesis by (simp add: fetch_models_def)
next
  case (Response st b)
  show ?thesis
  proof (cases b)
    case Not_json
    with Response show ?thesis by (simp add: fetch_models_def)
  next
    case (Json doc)
    with Response assms show ?thesis
      by (cases doc) (auto simp: fetch_models_def)
  qed
qed

lemma fetch_models_success:
  assumes "\<not> fetch_failure r"
  shows "\<exists>st d v. r = Response st (Json (Doc_object d)) \<and> \<not> (400 \<le> st \<and> st < 600)
           \<and> d ''data'' = Some v \<and> fetch_models r = ([], Inr v)"
proof (cases r)
  case Request_raises
  with assms show ?thesis by simp
next
  case (Response st b)
  show ?thesis
  proof (cases b)
    case Not_json
    with Response assms show ?thesis by simp
  next
    case (Json doc)
    with Response assms show ?thesis
      by (cases doc) (auto simp: fetch_models_def)
  qed
qed

text \<open>
  C2, as the code has it: on every outcome where no lookup raises, \<open>fetch_models\<close>
  returns \<open>None\<close> and prints a diagnostic exactly when the request raises, the status is
  from 400 to 599, the body is not JSON, or the parsed body has no \<open>data\<close> field; in
  every other case the body is a JSON object and the value of its \<open>data\<close> field is
  returned as it is, with nothing printed (a \<open>data\<close> field that is \<open>null\<close> is returned
  as \<open>None\<close>, with no diagnostic).
\<close>

theorem fetch_models_none_or_data:
  assumes "lookup_defined r"
  shows "(fetch_failure r \<longrightarrow>
            snd (fetch_models r) = Inr None \<and> fst (fetch_models r) \<noteq> [])
    \<and> (\<not> fetch_failure r \<longrightarrow>
          (\<exists>st d v. r = Response st (Json (Doc_object d)) \<and> d ''data'' = Some v
             \<and> fetch_models r = ([], Inr v)))
    \<and> (snd (fetch_models r) = Inr None \<and> fst (fetch_models r) \<noteq> [] \<longleftrightarrow> fetch_failure r)"
proof -
  have a: "snd (fetch_models r) = Inr None \<and> fst (fetch_models r) \<noteq> []" if "fetch_failure r"
    using fetch_models_failure [OF assms that] by auto
  have b: "\<exists>st d v. r = Response st (Json (Doc_object d)) \<and> d ''data'' = Some v
             \<and> fetch_models r = ([], Inr v)" if "\<not> fetch_failure r"
    using fetch_models_success [OF that] by blast
  have "fst (fetch_models r) = []" if "\<not> fetch_failure r"
    using b [OF that] by auto
  with a b show ?thesis
    by blast
qed

theorem fetch_models_none_or_data_witness:
  "snd (fetch_models (Response 404 (Json (Doc_object
      [''data'' \<mapsto> Some [\<lparr>id_field = Some ''a/x'', context_length = None\<rparr>]])))) = Inr None
   \<and> fst (fetch_models (Response 404 (Json (Doc_object
      [''data'' \<mapsto> Some [\<lparr>id_field = Some ''a/x'', context_length = None\<rparr>]])))) \<noteq> []
   \<and> fetch_models (Response 200 (Json (Doc_object
      [''data'' \<mapsto> Some [\<lparr>id_field = Some ''a/x'', context_length = None\<rparr>]])))
     = ([], Inr (Some [\<lparr>id_field = Some ''a/x'', context_length = None\<rparr>]))
   \<and> fetch_models (Response 200 (Json (Doc_object
      [''data'' \<mapsto> (None :: model list option)])))
     = ([], Inr None)"
proof -
  let ?d = "[''data'' \<mapsto> Some [\<lparr>id_field = Some ''a/x'', context_length = None\<rparr>]]"
  let ?n = "[''data'' \<mapsto> (None :: model list option)]"
  have "lookup_defined (Response 404 (Json (Doc_object ?d)))"
    and "fetch_failure (Response 404 (Json (Doc_object ?d)))"
    and "lookup_defined (Response 200 (Json (Doc_object ?d)))"
    and "\<not> fetch_failure (Response 200 (Json (Doc_object ?d)))"
    and "lookup_defined (Response 200 (Json (Doc_object ?n)))"
    and "\<not> fetch_failure (Response 200 (Json (Doc_object ?n)))"
    by simp_all
  with fetch_models_none_or_data [of "Response 404 (Json (Doc_object ?d))"]
    fetch_models_none_or_data [of "Response 200 (Json (Doc_object ?d))"]
    fetch_models_none_or_data [of "Response 200 (Json (Doc_object ?n))"]
  have "snd (fetch_models (Response 404 (Json (Doc_object ?d)))) = Inr None
          \<and> fst (fetch_models (Response 404 (Json (Doc_object ?d)))) \<noteq> []"
    and "\<exists>v. ?d ''data'' = Some v
           \<and> fetch_models (Response 200 (Json (Doc_object ?d))) = ([], Inr v)"
    and "\<exists>v. ?n ''data'' = Some v
           \<and> fetch_models (Response 200 (Json (Doc_object ?n))) = ([], Inr v)"
    by auto
  then show ?thesis
    by auto
qed

text \<open>
  C2 as stated fails: a response with status 300, which is not a 2xx status, and a body
  with a \<open>data\<close> field gives the data, not \<open>None\<close>; and a body that parses to a number,
  a boolean or \<open>null\<close> gives neither \<open>None\<close> nor data, but a \<open>TypeError\<close>.
\<close>

theorem fetch_models_status_300_and_scalar_body:
  "fetch_models (Response 300 (Json (Doc_object
      [''data'' \<mapsto> Some [\<lparr>id_field = Some ''a/x'', context_length = None\<rparr>]])))
     = ([], Inr (Some [\<lparr>id_field = Some ''a/x'', context_length = None\<rparr>]))
   \<and> fetch_models (Response 200 (Json Doc_scalar) :: model list http_result) = ([], Inl TypeError)"
  by (simp add: fetch_models_def)

text \<open>
  C3, as the code has it: when \<open>fetch_models\<close> returns \<open>None\<close> the entry point prints
  its banner and the diagnostic of \<open>fetch_models\<close> and nothing else: neither report
  function is called, neither of their messages is printed, and no table row is printed.
  Each report function, called with \<open>None\<close>, prints its banner and its own message.
\<close>

theorem main_fetch_failure:
  assumes "fetch_models r = (out, Inr None)"
  shows "main cfg r = (Fetching_banner # out, Inr ())
    \<and> Cannot_perform_check \<notin> set (fst (main cfg r))
    \<and> No_free_models \<notin> set (fst (main cfg r))
    \<and> filter is_row (fst (main cfg r)) = []
    \<and> check_specific_models cfg None = ([Check_banner, Cannot_perform_check], Inr ())
    \<and> display_free_models_with_supplier None = [Table_banner, No_free_models]"
proof -
  have m: "main cfg r = (Fetching_banner # out, Inr ())"
    using assms by (simp add: main_def)
  have "out = [Err_unable_to_connect, Err_details] \<or> out = [Err_no_data_field] \<or> out = []"
    using assms
    by (auto simp: fetch_models_def
        split: http_result.splits body.splits json_doc.splits if_splits option.splits)
  then have "Cannot_perform_check \<notin> set out" "No_free_models \<notin> set out" "filter is_row out = []"
    by auto
  with m show ?thesis
    by (simp add: check_specific_models_def display_free_models_with_supplier_def)
qed

theorem main_fetch_failure_witness:
  "fetch_models (Request_raises :: model list http_result)
     = ([Err_unable_to_connect, Err_details], Inr None)
   \<and> main MODELS_TO_CHECK Request_raises
     = ([Fetching_banner, Err_unable_to_connect, Err_details], Inr ())
   \<and> filter is_row (fst (main MODELS_TO_CHECK Request_raises)) = []"
proof -
  have h: "fetch_models (Request_raises :: model list http_result)
     = ([Err_unable_to_connect, Err_details], Inr None)"
    by (simp add: fetch_models_def)
  from main_fetch_failure [OF h, of MODELS_TO_CHECK] h show ?thesis
    by simp
qed

text \<open>
  C3 as stated fails: with a request that raises, the output of the program has neither
  the message of \<open>check_specific_models\<close> nor the one of
  \<open>display_free_models_with_supplier\<close>.
\<close>

theorem main_skips_reports_when_fetch_fails:
  "main MODELS_TO_CHECK Request_raises
     = ([Fetching_banner, Err_unable_to_connect, Err_details], Inr ())
   \<and> Cannot_perform_check \<notin> set (fst (main MODELS_TO_CHECK Request_raises))
   \<and> No_free_models \<notin> set (fst (main MODELS_TO_CHECK Request_raises))"
  by (simp add: main_def fetch_models_def)

end
